theory Spec2Isabelle
  imports Complex_Main
begin

section \<open>Data model of \<^verbatim>\<open>strategy.py\<close>\<close>

text \<open>
  Python floats are modelled as exact reals: every price is finite, and an arithmetic
  operation gives the exact result where the machine rounds it to a double, overflows
  to infinity or propagates a NaN. The theorems of this theory therefore use float
  values only where that makes no difference to what is proved: in comparisons, in the
  floor and ceiling of a price, and as data handed from one procedure to the next. The
  value that the machine gives a rounded product or quotient, and what \<^verbatim>\<open>int()\<close>
  makes of it, is not asserted for general inputs; the concrete runs below use inputs
  on which double arithmetic gives the values shown. Python integers are \<open>int\<close>. A pandas timestamp is an
  instant in nanoseconds. A DataFrame of bars is the list of its rows in row order, the
  index label being a field of the row. The direction strings \<^verbatim>\<open>'up'\<close> and
  \<^verbatim>\<open>'down'\<close> are the two values of a datatype.
\<close>

type_synonym timestamp = int

record bar =
  index :: timestamp
  open' :: real
  high :: real
  low :: real
  close :: real

datatype direction = Up | Down

text \<open>The subclasses of \<^verbatim>\<open>Exception\<close> that the modelled code can raise; \<open>BrokerError\<close>
  stands for whatever the broker library raises.\<close>

datatype pyexn = IndexError | ValueError | BrokerError nat

text \<open>The dictionary \<^verbatim>\<open>C\<close>, read once from the environment.\<close>

record config =
  symbols :: "string list"
  position_usd :: real
  ignore_minutes :: int
  otm_threshold :: real
  exp_days_ahead :: int
  mode :: string
  take_profit_pct :: real
  partial_sell_pct :: real
  stop_loss_pct :: real
  eod_time :: int
  ib_host :: string
  ib_port :: int
  ib_client_id :: int

section \<open>Trigger logic\<close>

text \<open>\<^verbatim>\<open>pd.Timedelta(minutes=m)\<close> in nanoseconds.\<close>

definition minutes :: "int \<Rightarrow> int" where
  "minutes m = m * 60000000000"

text \<open>\<^verbatim>\<open>'up' if c.close > c.open else 'down'\<close>\<close>

definition dir_of :: "bar \<Rightarrow> direction" where
  "dir_of c = (if close c > open' c then Up else Down)"

text \<open>\<^verbatim>\<open>df2.loc[label]\<close>: the rows carrying the label. One row is a row; several are a
  frame, whose columns have no truth value.\<close>

definition loc :: "bar list \<Rightarrow> timestamp \<Rightarrow> bar list" where
  "loc df2 label = filter (\<lambda>r. index r = label) df2"

text \<open>The \<^verbatim>\<open>for curr in df2.iloc[1:].itertuples()\<close> loop; \<open>trigger\<close> is what the variable
  of that name holds. Comparing the columns of a frame of several rows inside
  \<^verbatim>\<open>if\<close> raises ValueError.\<close>

fun scan :: "bar list \<Rightarrow> bar list \<Rightarrow> bar list \<Rightarrow> pyexn + (timestamp \<times> direction) option" where
  "scan df2 trigger [] = Inr None"
| "scan df2 trigger (cur # rest) =
     (case trigger of
        [prev] \<Rightarrow>
          (let prev_dir = dir_of prev; curr_dir = dir_of cur in
           if prev_dir = curr_dir \<and>
              ((prev_dir = Up \<and> close cur > high prev) \<or>
               (prev_dir = Down \<and> close cur < low prev))
           then Inr (Some (index cur, prev_dir))
           else scan df2 (loc df2 (index cur)) rest)
      | _ \<Rightarrow> Inl ValueError)"

text \<open>\<^verbatim>\<open>df[df.index >= df.index[0] + pd.Timedelta(minutes=C["ignore_minutes"])]\<close>, for a
  frame whose first row is \<open>first\<close>.\<close>

definition warmup_filter :: "config \<Rightarrow> bar \<Rightarrow> bar list \<Rightarrow> bar list" where
  "warmup_filter C first df =
     filter (\<lambda>r. index r \<ge> index first + minutes (ignore_minutes C)) df"

text \<open>\<^verbatim>\<open>find_trigger\<close>: \<^verbatim>\<open>df.index[0]\<close> raises IndexError on a frame with no rows.
  The result \<^verbatim>\<open>(None, None)\<close> is \<open>None\<close>, \<^verbatim>\<open>(curr.Index, prev_dir)\<close> is \<open>Some\<close>.\<close>

definition find_trigger :: "config \<Rightarrow> bar list \<Rightarrow> pyexn + (timestamp \<times> direction) option" where
  "find_trigger C df =
     (case df of
        [] \<Rightarrow> Inl IndexError
      | first # _ \<Rightarrow>
          (let df2 = warmup_filter C first df in
           case df2 of
             [] \<Rightarrow> Inr None
           | b0 # rest \<Rightarrow> scan df2 [b0] rest))"

text \<open>The trigger rule in the specification's words, written without the
  definitions above. A candle is up when its close is above its open and down
  otherwise, so a candle that closes at its open is down. The warm-up filter discards
  the bars that are earlier than the first timestamp plus the ignore window of
  \<open>ignore_minutes\<close> minutes of 60000000000 nanoseconds each; a bar exactly at that
  instant remains. A candle breaks out of the one before it when both are up and it
  closes above the earlier high, or both are down and it closes below the earlier low.
  The trigger is the first candle, from the second remaining one on, that breaks out of
  its predecessor, with that candle's timestamp and direction.\<close>

definition spec_up :: "bar \<Rightarrow> bool" where
  "spec_up c \<longleftrightarrow> open' c < close c"

definition spec_direction :: "bar \<Rightarrow> direction" where
  "spec_direction c = (if spec_up c then Up else Down)"

definition spec_discarded :: "config \<Rightarrow> bar list \<Rightarrow> bar \<Rightarrow> bool" where
  "spec_discarded C df r \<longleftrightarrow> index r < index (hd df) + ignore_minutes C * 60000000000"

definition spec_remaining :: "config \<Rightarrow> bar list \<Rightarrow> bar list" where
  "spec_remaining C df = filter (\<lambda>r. \<not> spec_discarded C df r) df"

definition spec_breakout :: "bar \<Rightarrow> bar \<Rightarrow> bool" where
  "spec_breakout prev cur \<longleftrightarrow>
     (spec_up prev \<and> spec_up cur \<and> high prev < close cur) \<or>
     (\<not> spec_up prev \<and> \<not> spec_up cur \<and> close cur < low prev)"

definition spec_trigger :: "bar list \<Rightarrow> (timestamp \<times> direction) option" where
  "spec_trigger df2 =
     map_option (\<lambda>(prev, cur). (index cur, spec_direction cur))
       (find (\<lambda>(prev, cur). spec_breakout prev cur) (zip df2 (tl df2)))"

section \<open>Position sizing and option selection\<close>

text \<open>Python's \<^verbatim>\<open>int(x)\<close> on a float: truncation toward zero.\<close>

definition py_int :: "real \<Rightarrow> int" where
  "py_int x = (if x \<ge> 0 then \<lfloor>x\<rfloor> else \<lceil>x\<rceil>)"

text \<open>\<^verbatim>\<open>int(C["position_usd"] / (price * 100)) if price and price > 0 else 0\<close>, with the
  product and the quotient exact (no rounding, no overflow).\<close>

definition size' :: "config \<Rightarrow> real \<Rightarrow> int" where
  "size' C price =
     (if price \<noteq> 0 \<and> price > 0 then py_int (position_usd C / (price * 100)) else 0)"

datatype right = CALL | PUT

text \<open>An option contract descriptor: \<^verbatim>\<open>Option(sym, exp, strike, right, 'SMART')\<close>. The
  expiry is a day number instead of its \<^verbatim>\<open>%Y%m%d\<close> rendering.\<close>

record contract =
  symbol :: string
  lastTradeDate :: int
  strike :: int
  right :: right
  exchange :: string

definition Option :: "string \<Rightarrow> int \<Rightarrow> int \<Rightarrow> right \<Rightarrow> string \<Rightarrow> contract" where
  "Option symb expiry k r ex =
     \<lparr>symbol = symb, lastTradeDate = expiry, strike = k, right = r, exchange = ex\<rparr>"

text \<open>\<^verbatim>\<open>select_option\<close>; \<open>today\<close> is \<^verbatim>\<open>datetime.now(tz).date()\<close> as a day number.
  \<^verbatim>\<open>bars['close'].iloc[-1]\<close> raises IndexError on a frame with no rows.\<close>

definition select_option :: "config \<Rightarrow> int \<Rightarrow> string \<Rightarrow> direction \<Rightarrow> bar list \<Rightarrow> pyexn + contract" where
  "select_option C today symb direction bars =
     (case bars of
        [] \<Rightarrow> Inl IndexError
      | _ # _ \<Rightarrow>
          (let price = close (last bars);
               expiry = today + exp_days_ahead C;
               strike0 = (if direction = Up then \<lceil>price\<rceil> else \<lfloor>price\<rfloor>);
               strike1 = (if \<bar>of_int strike0 - price\<bar> > otm_threshold C
                          then py_int price + (if direction = Up then 1 else - 1)
                          else strike0);
               right = (if direction = Up then CALL else PUT)
           in Inr (Option symb expiry strike1 right ''SMART'')))"

text \<open>The defaults of the environment lookups that build \<^verbatim>\<open>C\<close>; the end-of-day time
  \<^verbatim>\<open>"15:50"\<close> is in minutes after midnight.\<close>

definition default_config :: config where
  "default_config =
     \<lparr>symbols = [''SPY''], position_usd = 10000, ignore_minutes = 15,
      otm_threshold = 1, exp_days_ahead = 1, mode = ''DUMMY'',
      take_profit_pct = 0.10, partial_sell_pct = 0.90, stop_loss_pct = 0.10,
      eod_time = 950, ib_host = ''127.0.0.1'', ib_port = 7497, ib_client_id = 1\<rparr>"

section \<open>Effects: the broker, the clock, the log\<close>

datatype side = BUY | SELL

datatype order_type = MKT | LMT

record order =
  orderType :: order_type
  action :: side
  totalQuantity :: int
  lmtPrice :: "real option"
  ocaGroup :: "int option"
  ocaType :: nat

definition MarketOrder :: "side \<Rightarrow> int \<Rightarrow> order" where
  "MarketOrder a q =
     \<lparr>orderType = MKT, action = a, totalQuantity = q, lmtPrice = None,
      ocaGroup = None, ocaType = 0\<rparr>"

definition LimitOrder :: "side \<Rightarrow> int \<Rightarrow> real \<Rightarrow> order" where
  "LimitOrder a q price =
     \<lparr>orderType = LMT, action = a, totalQuantity = q, lmtPrice = Some price,
      ocaGroup = None, ocaType = 0\<rparr>"

text \<open>The log lines and console lines, by content instead of by formatted text.\<close>

datatype msg =
    Started | Completed | Connected | Dummy_mode
  | No_trigger string
  | Trigger_at string timestamp direction
  | Qty_skip string int
  | Dummy_buy int string int right
  | Entered int real string int right
  | Bracket_placed real real string
  | Dummy_eod | Eod_done
  | Error_processing string pyexn

datatype level = INFO | WARNING | ERROR

datatype callee = Get_bars string | Eod_cleanup

text \<open>Everything a run does that can be observed, in order: log records, console
  lines, operations on the broker session, and a mark at the entry of \<^verbatim>\<open>get_bars\<close> and
  of \<^verbatim>\<open>eod_cleanup\<close>.\<close>

datatype event =
    Log level msg
  | Print msg
  | IB_connect string int int
  | IB_reqHistoricalData string
  | IB_placeOrder contract order
  | IB_sleep nat
  | IB_openOrders
  | IB_cancelOrder order
  | IB_positions
  | IB_disconnect
  | Call callee

text \<open>What the outside answers, given the history of the run so far: each broker
  operation returns or raises, the clock gives the local wall time in nanoseconds, and
  \<open>randn\<close> gives the samples of one \<^verbatim>\<open>np.random.randn\<close> draw.\<close>

record world =
  connect :: "event list \<Rightarrow> pyexn + unit"
  reqHistoricalData :: "event list \<Rightarrow> string \<Rightarrow> pyexn + bar list"
  placeOrder :: "event list \<Rightarrow> contract \<Rightarrow> order \<Rightarrow> pyexn + unit"
  sleep :: "event list \<Rightarrow> pyexn + unit"
  avgFillPrice :: "event list \<Rightarrow> real"
  openOrders :: "event list \<Rightarrow> pyexn + order list"
  cancelOrder :: "event list \<Rightarrow> order \<Rightarrow> pyexn + unit"
  positions :: "event list \<Rightarrow> pyexn + (contract \<times> real) list"
  disconnect :: "event list \<Rightarrow> pyexn + unit"
  now :: "event list \<Rightarrow> int"
  randn :: "event list \<Rightarrow> nat \<Rightarrow> real"

text \<open>A procedure takes the history and returns its value or the exception it raised,
  with the history extended by what it did.\<close>

type_synonym 'a proc = "event list \<Rightarrow> (pyexn + 'a) \<times> event list"

definition return :: "'a \<Rightarrow> 'a proc" where
  "return x tr = (Inr x, tr)"

definition raise :: "pyexn \<Rightarrow> 'a proc" where
  "raise e tr = (Inl e, tr)"

definition pbind :: "'a proc \<Rightarrow> ('a \<Rightarrow> 'b proc) \<Rightarrow> 'b proc" where
  "pbind m f tr = (case m tr of (Inl e, tr') \<Rightarrow> (Inl e, tr') | (Inr x, tr') \<Rightarrow> f x tr')"

definition emit :: "event \<Rightarrow> unit proc" where
  "emit e tr = (Inr (), tr @ [e])"

definition ask :: "(event list \<Rightarrow> 'a) \<Rightarrow> 'a proc" where
  "ask f tr = (Inr (f tr), tr)"

text \<open>A broker operation: it is recorded, and the broker answers from the history
  before it.\<close>

definition broker_call :: "event \<Rightarrow> (event list \<Rightarrow> pyexn + 'a) \<Rightarrow> 'a proc" where
  "broker_call e answer tr = (answer tr, tr @ [e])"

text \<open>\<^verbatim>\<open>logging.info(m); print(m)\<close> and its siblings.\<close>

definition log_print :: "level \<Rightarrow> msg \<Rightarrow> unit proc" where
  "log_print l m = pbind (emit (Log l m)) (\<lambda>_. emit (Print m))"

fun for_each :: "('a \<Rightarrow> unit proc) \<Rightarrow> 'a list \<Rightarrow> unit proc" where
  "for_each f [] = return ()"
| "for_each f (x # xs) = pbind (f x) (\<lambda>_. for_each f xs)"

definition day :: int where
  "day = 86400000000000"

definition hours :: "int \<Rightarrow> int" where
  "hours h = minutes (60 * h)"

section \<open>The procedures\<close>

definition connect_ib :: "world \<Rightarrow> config \<Rightarrow> unit proc" where
  "connect_ib W C =
     (if mode C \<noteq> ''DUMMY''
      then pbind (broker_call (IB_connect (ib_host C) (ib_port C) (ib_client_id C)) (connect W))
             (\<lambda>_. emit (Log INFO Connected))
      else emit (Log INFO Dummy_mode))"

text \<open>The 72 synthetic five-minute bars of simulation mode, from the clock reading
  \<open>t0\<close> and the random samples \<open>r\<close>: the price is 400 plus the running sum of the
  samples, open and close are the price, high and low one above and one below.\<close>

definition dummy_bars :: "int \<Rightarrow> (nat \<Rightarrow> real) \<Rightarrow> bar list" where
  "dummy_bars t0 r =
     map (\<lambda>i. let price = 400 + sum_list (map r [0..<Suc i]) in
            \<lparr>index = t0 - hours 6 + minutes 5 * int i,
             open' = price, high = price + 1, low = price - 1, close = price\<rparr>)
       [0..<72]"

text \<open>\<^verbatim>\<open>get_bars\<close>. In live mode the request and the conversion of its answer to a frame
  are one answer of the broker, a frame or an exception.\<close>

definition get_bars :: "world \<Rightarrow> config \<Rightarrow> string \<Rightarrow> bar list proc" where
  "get_bars W C symb =
     pbind (emit (Call (Get_bars symb))) (\<lambda>_.
       if mode C = ''DUMMY''
       then ask (\<lambda>tr. dummy_bars (now W tr) (randn W tr))
       else broker_call (IB_reqHistoricalData symb) (\<lambda>tr. reqHistoricalData W tr symb))"

text \<open>\<^verbatim>\<open>place_orders\<close>. The bracket group \<^verbatim>\<open>OCA_%H%M%S\<close> is the second of the day.
  The two limit prices and the take-profit quantity are computed exactly (no rounding).\<close>

definition place_orders :: "world \<Rightarrow> config \<Rightarrow> contract \<Rightarrow> int \<Rightarrow> unit proc" where
  "place_orders W C contract qty =
     (if qty < 1 then emit (Log WARNING (Qty_skip (symbol contract) qty))
      else if mode C = ''DUMMY''
      then log_print INFO (Dummy_buy qty (symbol contract) (strike contract) (right contract))
      else
        pbind (broker_call (IB_placeOrder contract (MarketOrder BUY qty))
                 (\<lambda>tr. placeOrder W tr contract (MarketOrder BUY qty))) (\<lambda>_.
        pbind (broker_call (IB_sleep 1) (sleep W)) (\<lambda>_.
        pbind (ask (avgFillPrice W)) (\<lambda>fill.
        pbind (emit (Log INFO (Entered qty fill (symbol contract) (strike contract)
                 (right contract)))) (\<lambda>_.
        let tp = fill * (1 + take_profit_pct C);
            sl = fill * (1 - stop_loss_pct C);
            tp_qty = py_int (of_int qty * partial_sell_pct C) in
        pbind (ask (now W)) (\<lambda>t.
        let oca = (t mod day) div 1000000000 in
        pbind (for_each (\<lambda>(q, price).
                  let order = (LimitOrder SELL q price)\<lparr>ocaGroup := Some oca, ocaType := 2\<rparr> in
                  broker_call (IB_placeOrder contract order)
                    (\<lambda>tr. placeOrder W tr contract order))
                 [(tp_qty, tp), (qty, sl)]) (\<lambda>_.
        emit (Log INFO (Bracket_placed tp sl (symbol contract))))))))))"

text \<open>\<^verbatim>\<open>eod_cleanup\<close>. The cutoff is the configured minute of the current local day.\<close>

definition flatten_position :: "world \<Rightarrow> contract \<times> real \<Rightarrow> unit proc" where
  "flatten_position W pos =
     (if snd pos \<noteq> 0
      then (let side = (if snd pos > 0 then SELL else BUY);
                order = MarketOrder side \<bar>py_int (snd pos)\<bar> in
            broker_call (IB_placeOrder (fst pos) order)
              (\<lambda>tr. placeOrder W tr (fst pos) order))
      else return ())"

definition eod_cleanup :: "world \<Rightarrow> config \<Rightarrow> unit proc" where
  "eod_cleanup W C =
     pbind (emit (Call Eod_cleanup)) (\<lambda>_.
     pbind (ask (now W)) (\<lambda>t.
     let cutoff = (t div day) * day + minutes (eod_time C) in
     if t < cutoff then return ()
     else if mode C = ''DUMMY'' then log_print INFO Dummy_eod
     else
       pbind (broker_call IB_openOrders (openOrders W)) (\<lambda>os.
       pbind (for_each (\<lambda>ord. broker_call (IB_cancelOrder ord) (\<lambda>tr. cancelOrder W tr ord)) os) (\<lambda>_.
       pbind (broker_call IB_positions (positions W)) (\<lambda>ps.
       pbind (for_each (flatten_position W) ps) (\<lambda>_.
       pbind (broker_call IB_disconnect (disconnect W)) (\<lambda>_.
       emit (Log INFO Eod_done))))))))"

text \<open>The body of the \<^verbatim>\<open>try\<close> in \<^verbatim>\<open>run_strategy\<close>, for one symbol.\<close>

definition process_symbol :: "world \<Rightarrow> config \<Rightarrow> string \<Rightarrow> unit proc" where
  "process_symbol W C symb =
     pbind (get_bars W C symb) (\<lambda>bars.
       case find_trigger C bars of
         Inl e \<Rightarrow> raise e
       | Inr None \<Rightarrow> log_print INFO (No_trigger symb)
       | Inr (Some (t_time, direction)) \<Rightarrow>
           pbind (log_print INFO (Trigger_at symb t_time direction)) (\<lambda>_.
           pbind (ask (now W)) (\<lambda>t.
           case select_option C (t div day) symb direction bars of
             Inl e \<Rightarrow> raise e
           | Inr contract \<Rightarrow>
               (let qty = size' C (close (last bars)) in
                if qty < 1 then log_print WARNING (Qty_skip symb qty)
                else place_orders W C contract qty))))"

text \<open>The \<^verbatim>\<open>for sym in C["symbols"]\<close> loop with its \<^verbatim>\<open>except Exception\<close> handler.\<close>

fun symbols_loop :: "world \<Rightarrow> config \<Rightarrow> string list \<Rightarrow> unit proc" where
  "symbols_loop W C [] tr = (Inr (), tr)"
| "symbols_loop W C (symb # rest) tr =
     (case process_symbol W C symb tr of
        (Inl e, tr') \<Rightarrow>
          symbols_loop W C rest
            (tr' @ [Log ERROR (Error_processing symb e), Print (Error_processing symb e)])
      | (Inr _, tr') \<Rightarrow> symbols_loop W C rest tr')"

definition run_strategy :: "world \<Rightarrow> config \<Rightarrow> unit proc" where
  "run_strategy W C =
     pbind (log_print INFO Started) (\<lambda>_.
     pbind (connect_ib W C) (\<lambda>_.
     pbind (symbols_loop W C (symbols C)) (\<lambda>_.
     pbind (eod_cleanup W C) (\<lambda>_.
     log_print INFO Completed))))"

text \<open>The operations on the broker session.\<close>

fun is_broker_op :: "event \<Rightarrow> bool" where
  "is_broker_op (Log _ _) = False"
| "is_broker_op (Print _) = False"
| "is_broker_op (Call _) = False"
| "is_broker_op _ = True"

fun is_call :: "event \<Rightarrow> bool" where
  "is_call (Call _) = True"
| "is_call _ = False"

text \<open>A procedure keeps the events selected by \<open>P\<close> when it adds none of them.\<close>

definition keeps :: "(event \<Rightarrow> bool) \<Rightarrow> 'a proc \<Rightarrow> bool" where
  "keeps P m \<longleftrightarrow> (\<forall>tr. filter P (snd (m tr)) = filter P tr)"

section \<open>Concrete inputs\<close>

text \<open>Five bars, two of them inside the default warm-up window of 15 minutes; of the
  remaining three, the third closes above the high of the second, both being up.\<close>

definition example_bars :: "bar list" where
  "example_bars =
     [\<lparr>index = minutes 0, open' = 399, high = 400, low = 398, close = 399.5\<rparr>,
      \<lparr>index = minutes 5, open' = 399.5, high = 405, low = 399, close = 404\<rparr>,
      \<lparr>index = minutes 20, open' = 400, high = 402, low = 399, close = 401\<rparr>,
      \<lparr>index = minutes 25, open' = 401, high = 401.8, low = 400.5, close = 401.5\<rparr>,
      \<lparr>index = minutes 30, open' = 401.5, high = 402.5, low = 401, close = 402\<rparr>]"

text \<open>Four bars for the default warm-up window of 15 minutes: the third is exactly 15
  minutes after the first and closes at its open; the fourth is down and closes below
  the low of the third.\<close>

definition boundary_bars :: "bar list" where
  "boundary_bars =
     [\<lparr>index = minutes 0, open' = 400, high = 401, low = 399.8, close = 400.5\<rparr>,
      \<lparr>index = minutes 10, open' = 400.5, high = 400.6, low = 399.9, close = 400\<rparr>,
      \<lparr>index = minutes 15, open' = 400, high = 400.4, low = 399.5, close = 400\<rparr>,
      \<lparr>index = minutes 20, open' = 399.8, high = 399.9, low = 399.1, close = 399.2\<rparr>]"


text \<open>A bar is consistent when its high and low enclose its open and close.\<close>

definition consistent :: "bar \<Rightarrow> bool" where
  "consistent b \<longleftrightarrow> high b \<ge> max (open' b) (close b) \<and> low b \<le> min (open' b) (close b)"

text \<open>The four bars of the specification's scenario, at 09:30 to 09:33, with the highs
  and lows left open.\<close>

definition scenario_bars ::
  "real \<Rightarrow> real \<Rightarrow> real \<Rightarrow> real \<Rightarrow> real \<Rightarrow> real \<Rightarrow> real \<Rightarrow> real \<Rightarrow> bar list" where
  "scenario_bars h1 l1 h2 l2 h3 l3 h4 l4 =
     [\<lparr>index = minutes 570, open' = 400, high = h1, low = l1, close = 401\<rparr>,
      \<lparr>index = minutes 571, open' = 401, high = h2, low = l2, close = 399\<rparr>,
      \<lparr>index = minutes 572, open' = 399.5, high = h3, low = l3, close = 399.6\<rparr>,
      \<lparr>index = minutes 573, open' = 399.6, high = h4, low = l4, close = 399.7\<rparr>]"

text \<open>A world in which every broker operation succeeds: the history request answers
  \<open>bars\<close>, every entry fills at \<open>fill\<close>, nothing is open at the end of the day, and the
  clock stands at \<open>t\<close>.\<close>

definition calm_world :: "bar list \<Rightarrow> real \<Rightarrow> int \<Rightarrow> world" where
  "calm_world bars fill t =
     \<lparr>connect = (\<lambda>_. Inr ()), reqHistoricalData = (\<lambda>_ _. Inr bars),
      placeOrder = (\<lambda>_ _ _. Inr ()), sleep = (\<lambda>_. Inr ()), avgFillPrice = (\<lambda>_. fill),
      openOrders = (\<lambda>_. Inr []), cancelOrder = (\<lambda>_ _. Inr ()),
      positions = (\<lambda>_. Inr []), disconnect = (\<lambda>_. Inr ()),
      now = (\<lambda>_. t), randn = (\<lambda>_ _. 0)\<rparr>"

text \<open>A world in which every history request raises.\<close>

definition failing_world :: world where
  "failing_world = (calm_world [] 0 0)\<lparr>reqHistoricalData := (\<lambda>_ _. Inl (BrokerError 1))\<rparr>"

definition live_config :: config where
  "live_config = default_config\<lparr>mode := ''LIVE''\<rparr>"

definition two_symbols :: config where
  "two_symbols = live_config\<lparr>symbols := [''SPY'', ''QQQ'']\<rparr>"


section \<open>The trigger detector\<close>

lemma loc_unique:
  "distinct (map index df2) \<Longrightarrow> c \<in> set df2 \<Longrightarrow> loc df2 (index c) = [c]"
  unfolding loc_def
proof (induction df2)
  case Nil
  then show ?case by simp
next
  case (Cons a df2)
  show ?case
  proof (cases "a = c")
    case True
    have "index c \<notin> index ` set df2" using Cons.prems(1) True by simp
    then have "\<forall>r\<in>set df2. index r \<noteq> index c" by (metis imageI)
    then have "filter (\<lambda>r. index r = index c) df2 = []"
      by (simp add: filter_empty_conv)
    with True show ?thesis by simp
  next
    case False
    with Cons.prems have "c \<in> set df2" by simp
    moreover have "index a \<noteq> index c" using Cons.prems(1) \<open>c \<in> set df2\<close> by auto
    ultimately show ?thesis using Cons by simp
  qed
qed

lemma dir_of_spec: "dir_of c = spec_direction c"
  by (simp add: dir_of_def spec_direction_def spec_up_def)

lemma warmup_filter_spec: "warmup_filter C (hd df) df = spec_remaining C df"
  by (simp add: warmup_filter_def spec_remaining_def spec_discarded_def minutes_def not_less)

lemma scan_step:
  "scan df2 [p] (c # rest) =
     (if spec_breakout p c then Inr (Some (index c, spec_direction c))
      else scan df2 (loc df2 (index c)) rest)"
  by (auto simp: spec_breakout_def spec_direction_def spec_up_def dir_of_def Let_def)

lemma spec_trigger_step:
  "spec_trigger (p # c # rest) =
     (if spec_breakout p c then Some (index c, spec_direction c) else spec_trigger (c # rest))"
  by (simp add: spec_trigger_def)

lemma scan_spec:
  "distinct (map index df2) \<Longrightarrow> set rest \<subseteq> set df2 \<Longrightarrow>
   scan df2 [p] rest = Inr (spec_trigger (p # rest))"
proof (induction rest arbitrary: p)
  case Nil
  then show ?case by (simp add: spec_trigger_def)
next
  case (Cons c rest)
  have l: "loc df2 (index c) = [c]" using Cons.prems by (simp add: loc_unique)
  have ih: "scan df2 [c] rest = Inr (spec_trigger (c # rest))"
    using Cons.IH Cons.prems by simp
  show ?case
    by (simp only: scan_step spec_trigger_step l ih if_distrib[of Inr] cong: if_cong)
qed

lemma consecutive_nth:
  "i < length (zip xs (tl xs)) \<Longrightarrow> zip xs (tl xs) ! i = (xs ! i, xs ! Suc i)"
  by (simp add: nth_tl)

lemma spec_trigger_None:
  "spec_trigger xs = None \<longleftrightarrow>
   (\<forall>i. Suc i < length xs \<longrightarrow> \<not> spec_breakout (xs ! i) (xs ! Suc i))"
proof -
  have "spec_trigger xs = None \<longleftrightarrow>
        (\<forall>x\<in>set (zip xs (tl xs)). \<not> (case x of (p, c) \<Rightarrow> spec_breakout p c))"
    unfolding spec_trigger_def by (auto simp: find_None_iff)
  also have "\<dots> \<longleftrightarrow>
        (\<forall>i<length (zip xs (tl xs)).
           \<not> (case zip xs (tl xs) ! i of (p, c) \<Rightarrow> spec_breakout p c))"
    by (rule all_set_conv_all_nth)
  also have "\<dots> \<longleftrightarrow> (\<forall>i. Suc i < length xs \<longrightarrow> \<not> spec_breakout (xs ! i) (xs ! Suc i))"
    by (simp add: nth_tl less_diff_conv)
  finally show ?thesis .
qed

lemma spec_trigger_Some:
  "spec_trigger xs = Some (t, d) \<longleftrightarrow>
     (\<exists>i. Suc i < length xs \<and> spec_breakout (xs ! i) (xs ! Suc i) \<and>
          (\<forall>j<i. \<not> spec_breakout (xs ! j) (xs ! Suc j)) \<and>
          t = index (xs ! Suc i) \<and> d = spec_direction (xs ! Suc i))"
  (is "?L \<longleftrightarrow> ?R")
proof
  assume ?L
  then obtain p c where f: "find (\<lambda>(p, c). spec_breakout p c) (zip xs (tl xs)) = Some (p, c)"
    and t: "t = index c" "d = spec_direction c"
    unfolding spec_trigger_def by auto
  from f obtain i where i: "i < length (zip xs (tl xs))" "spec_breakout p c"
     "(p, c) = zip xs (tl xs) ! i"
     "\<forall>j<i. \<not> (case zip xs (tl xs) ! j of (p, c) \<Rightarrow> spec_breakout p c)"
    unfolding find_Some_iff by auto
  have pc: "p = xs ! i" "c = xs ! Suc i" using i(1,3) by (simp_all add: nth_tl)
  have "\<forall>j<i. \<not> spec_breakout (xs ! j) (xs ! Suc j)"
  proof (intro allI impI)
    fix j assume "j < i"
    then have "j < length (zip xs (tl xs))" using i(1) by simp
    then have "zip xs (tl xs) ! j = (xs ! j, xs ! Suc j)" by (rule consecutive_nth)
    with i(4) \<open>j < i\<close> show "\<not> spec_breakout (xs ! j) (xs ! Suc j)" by auto
  qed
  with i(1,2) pc t show ?R by (intro exI[of _ i]) auto
next
  assume ?R
  then obtain i where i: "Suc i < length xs" "spec_breakout (xs ! i) (xs ! Suc i)"
    "\<forall>j<i. \<not> spec_breakout (xs ! j) (xs ! Suc j)" "t = index (xs ! Suc i)"
    "d = spec_direction (xs ! Suc i)"
    by auto
  have len: "i < length (zip xs (tl xs))" using i(1) by simp
  have "find (\<lambda>(p, c). spec_breakout p c) (zip xs (tl xs)) = Some (xs ! i, xs ! Suc i)"
    unfolding find_Some_iff
  proof (intro exI[of _ i] conjI)
    show "i < length (zip xs (tl xs))" by (rule len)
    show "case zip xs (tl xs) ! i of (p, c) \<Rightarrow> spec_breakout p c"
      using consecutive_nth[OF len] i(2) by simp
    show "(xs ! i, xs ! Suc i) = zip xs (tl xs) ! i" using consecutive_nth[OF len] by simp
    show "\<forall>j<i. \<not> (case zip xs (tl xs) ! j of (p, c) \<Rightarrow> spec_breakout p c)"
    proof (intro allI impI)
      fix j assume "j < i"
      then have "j < length (zip xs (tl xs))" using len by simp
      then have "zip xs (tl xs) ! j = (xs ! j, xs ! Suc j)" by (rule consecutive_nth)
      with i(3) \<open>j < i\<close>
      show "\<not> (case zip xs (tl xs) ! j of (p, c) \<Rightarrow> spec_breakout p c)" by simp
    qed
  qed
  with i(4,5) show ?L by (simp add: spec_trigger_def)
qed

lemma find_trigger_spec:
  assumes "df \<noteq> []" and "distinct (map index df)"
  shows "find_trigger C df = Inr (spec_trigger (spec_remaining C df))"
proof -
  obtain first tl' where df: "df = first # tl'" using assms(1) by (cases df) auto
  let ?df2 = "warmup_filter C first df"
  have w: "?df2 = spec_remaining C df" using warmup_filter_spec[of C df] df by simp
  have d: "distinct (map index ?df2)"
    using assms(2) unfolding warmup_filter_def by (rule distinct_map_filter)
  have f: "find_trigger C df =
             (case ?df2 of [] \<Rightarrow> Inr None | b0 # rest \<Rightarrow> scan ?df2 [b0] rest)"
    unfolding df find_trigger_def Let_def by simp
  have "find_trigger C df = Inr (spec_trigger ?df2)"
  proof (cases ?df2)
    case Nil
    then show ?thesis unfolding f by (simp add: spec_trigger_def)
  next
    case (Cons b0 rest)
    have "set rest \<subseteq> set ?df2" using Cons by auto
    then have "scan ?df2 [b0] rest = Inr (spec_trigger (b0 # rest))"
      using d by (rule scan_spec[rotated])
    then show ?thesis unfolding f using Cons by simp
  qed
  then show ?thesis unfolding w .
qed

lemma find_trigger_all_filtered:
  "df \<noteq> [] \<Longrightarrow> spec_remaining C df = [] \<Longrightarrow> find_trigger C df = Inr None"
  using warmup_filter_spec[of C df] by (cases df) (simp_all add: find_trigger_def)

lemma find_trigger_all_filtered_example:
  "find_trigger default_config [\<lparr>index = 0, open' = 1, high = 2, low = 1, close = 2\<rparr>] = Inr None"
  by (simp add: find_trigger_def warmup_filter_def default_config_def minutes_def)

text \<open>
  Claim C1. On a frame that has a first row and whose timestamps are unique,
  \<open>find_trigger\<close> discards the bars earlier than the first timestamp plus
  \<open>ignore_minutes\<close> minutes and keeps the others, a bar exactly at that instant
  included. Over the bars that remain it returns the timestamp and direction of the first
  candle, from the second one on, that has the direction of the candle just before it
  (up when the close is above the open, down otherwise, so down when they are equal) and
  closes above that candle's high (both up) or below its low (both down). It returns no
  trigger exactly when no candle does, and the result holds at most one trigger.
\<close>

theorem find_trigger_first_breakout:
  assumes "df \<noteq> []" and "distinct (map index df)"
  shows "find_trigger C df = Inr (spec_trigger (spec_remaining C df)) \<and>
         (find_trigger C df = Inr None \<longleftrightarrow>
            (\<forall>i. Suc i < length (spec_remaining C df) \<longrightarrow>
                 \<not> spec_breakout (spec_remaining C df ! i) (spec_remaining C df ! Suc i))) \<and>
         (\<forall>t d. find_trigger C df = Inr (Some (t, d)) \<longleftrightarrow>
            (\<exists>i. Suc i < length (spec_remaining C df) \<and>
                 spec_breakout (spec_remaining C df ! i) (spec_remaining C df ! Suc i) \<and>
                 (\<forall>j<i. \<not> spec_breakout (spec_remaining C df ! j)
                                        (spec_remaining C df ! Suc j)) \<and>
                 t = index (spec_remaining C df ! Suc i) \<and>
                 d = (if open' (spec_remaining C df ! Suc i) < close (spec_remaining C df ! Suc i)
                      then Up else Down)))"
proof -
  have e: "find_trigger C df = Inr (spec_trigger (spec_remaining C df))"
    using assms by (rule find_trigger_spec)
  show ?thesis
    unfolding e by (simp add: spec_trigger_None spec_trigger_Some spec_direction_def spec_up_def)
qed

theorem find_trigger_first_breakout_witness:
  "example_bars \<noteq> [] \<and> distinct (map index example_bars) \<and>
   find_trigger default_config example_bars = Inr (Some (minutes 30, Up)) \<and>
   boundary_bars \<noteq> [] \<and> distinct (map index boundary_bars) \<and>
   spec_remaining default_config boundary_bars =
     [\<lparr>index = minutes 15, open' = 400, high = 400.4, low = 399.5, close = 400\<rparr>,
      \<lparr>index = minutes 20, open' = 399.8, high = 399.9, low = 399.1, close = 399.2\<rparr>] \<and>
   find_trigger default_config boundary_bars = Inr (Some (minutes 20, Down))"
proof -
  have n: "example_bars \<noteq> []" by (simp add: example_bars_def)
  have d: "distinct (map index example_bars)" by (simp add: example_bars_def minutes_def)
  have r: "spec_trigger (spec_remaining default_config example_bars) = Some (minutes 30, Up)"
    by (simp add: spec_trigger_def spec_remaining_def spec_discarded_def example_bars_def
        default_config_def minutes_def spec_breakout_def spec_direction_def spec_up_def)
  have n': "boundary_bars \<noteq> []" by (simp add: boundary_bars_def)
  have d': "distinct (map index boundary_bars)" by (simp add: boundary_bars_def minutes_def)
  have k: "spec_remaining default_config boundary_bars =
     [\<lparr>index = minutes 15, open' = 400, high = 400.4, low = 399.5, close = 400\<rparr>,
      \<lparr>index = minutes 20, open' = 399.8, high = 399.9, low = 399.1, close = 399.2\<rparr>]"
    by (simp add: spec_remaining_def spec_discarded_def boundary_bars_def default_config_def
        minutes_def)
  have r': "spec_trigger (spec_remaining default_config boundary_bars) = Some (minutes 20, Down)"
    unfolding k by (simp add: spec_trigger_def spec_breakout_def spec_direction_def spec_up_def)
  from find_trigger_first_breakout[OF n d, of default_config]
       find_trigger_first_breakout[OF n' d', of default_config] r r' k n d n' d'
  show ?thesis by simp
qed

text \<open>
  Claim C6. On the frame with no rows \<open>find_trigger\<close> raises IndexError: the first
  timestamp is read before the emptiness check. (A frame with rows, none of which
  remains after the filter, gives no trigger: \<open>find_trigger_all_filtered\<close>.)
\<close>

theorem find_trigger_empty_frame: "find_trigger C [] = Inl IndexError"
  by (simp add: find_trigger_def)

text \<open>
  Claim C7, amended. With no warm-up window and consistent highs and lows, the four
  bars of the scenario give no trigger exactly when the third bar's high is at least
  399.7; when it is lower, the fourth bar (up, like the third) closes above it and the
  trigger fires at 09:33, direction up.
\<close>

theorem scenario_trigger:
  assumes "ignore_minutes C = 0"
    and "list_all consistent (scenario_bars h1 l1 h2 l2 h3 l3 h4 l4)"
  shows "find_trigger C (scenario_bars h1 l1 h2 l2 h3 l3 h4 l4) =
           Inr (if h3 < 399.7 then Some (minutes 573, Up) else None)"
  using assms
  by (simp add: find_trigger_def warmup_filter_def scenario_bars_def minutes_def loc_def
      dir_of_def consistent_def)

theorem scenario_trigger_witness:
  "ignore_minutes (default_config\<lparr>ignore_minutes := 0\<rparr>) = 0 \<and>
   list_all consistent (scenario_bars 402 399 402 398 400 399 400 399) \<and>
   find_trigger (default_config\<lparr>ignore_minutes := 0\<rparr>)
     (scenario_bars 402 399 402 398 400 399 400 399) = Inr None"
proof -
  have a: "ignore_minutes (default_config\<lparr>ignore_minutes := 0\<rparr>) = 0" by simp
  have b: "list_all consistent (scenario_bars 402 399 402 398 400 399 400 399)"
    by (simp add: scenario_bars_def consistent_def)
  from scenario_trigger[OF a b] a b show ?thesis by simp
qed

text \<open>The scenario with every high and low at the bar's own open or close: consistent,
  and the trigger fires.\<close>

theorem scenario_triggers_counterexample:
  "list_all consistent (scenario_bars 401 400 401 399 399.6 399.5 399.7 399.6) \<and>
   find_trigger (default_config\<lparr>ignore_minutes := 0\<rparr>)
     (scenario_bars 401 400 401 399 399.6 399.5 399.7 399.6) = Inr (Some (minutes 573, Up))"
  by (simp add: find_trigger_def warmup_filter_def scenario_bars_def minutes_def loc_def
      dir_of_def consistent_def default_config_def)

section \<open>The option selector\<close>

text \<open>
  Claim C5. For every direction and every series whose last close \<open>p\<close> is positive,
  the candidate strike is \<open>ceiling(p)\<close> for up and \<open>floor(p)\<close> for down; when its
  distance from \<open>p\<close> exceeds the OTM threshold the returned strike is \<open>floor(p) + 1\<close>
  (up) or \<open>floor(p) - 1\<close> (down), and otherwise it is the candidate, no farther than the
  threshold from \<open>p\<close>; the right is call for up and put for down.
\<close>

theorem select_option_strike:
  assumes "bars \<noteq> []" and "0 < close (last bars)"
  shows "\<exists>c. select_option C today symb d bars = Inr c \<and>
           right c = (if d = Up then CALL else PUT) \<and>
           (let p = close (last bars);
                cand = (if d = Up then \<lceil>p\<rceil> else \<lfloor>p\<rfloor>) in
            if \<bar>of_int cand - p\<bar> > otm_threshold C
            then strike c = \<lfloor>p\<rfloor> + (if d = Up then 1 else - 1)
            else strike c = cand \<and> \<bar>of_int (strike c) - p\<bar> \<le> otm_threshold C)"
proof -
  obtain b bs where "bars = b # bs" using assms(1) by (cases bars) auto
  then show ?thesis using assms(2)
    by (simp add: select_option_def Option_def py_int_def Let_def)
qed

theorem select_option_strike_witness:
  "[\<lparr>index = 0, open' = 400, high = 402, low = 399, close = 401.2\<rparr>] \<noteq> [] \<and>
   0 < close (last [\<lparr>index = 0, open' = 400, high = 402, low = 399, close = 401.2\<rparr>]) \<and>
   select_option default_config 100 ''SPY'' Up
     [\<lparr>index = 0, open' = 400, high = 402, low = 399, close = 401.2\<rparr>]
     = Inr (Option ''SPY'' 101 402 CALL ''SMART'') \<and>
   select_option (default_config\<lparr>otm_threshold := 0.5\<rparr>) 100 ''SPY'' Down
     [\<lparr>index = 0, open' = 400, high = 402, low = 399, close = 401.8\<rparr>]
     = Inr (Option ''SPY'' 101 400 PUT ''SMART'')"
  using select_option_strike[of "[\<lparr>index = 0, open' = 400, high = 402, low = 399, close = 401.2\<rparr>]"
      default_config 100 "''SPY''" Up]
  by (simp add: select_option_def default_config_def py_int_def)

section \<open>Events that a procedure does not add\<close>

lemma keeps_return: "keeps P (return x)"
  by (simp add: keeps_def return_def)

lemma keeps_raise: "keeps P (raise e)"
  by (simp add: keeps_def raise_def)

lemma keeps_ask: "keeps P (ask f)"
  by (simp add: keeps_def ask_def)

lemma keeps_emit: "\<not> P e \<Longrightarrow> keeps P (emit e)"
  by (simp add: keeps_def emit_def)

lemma keeps_broker_call: "\<not> P e \<Longrightarrow> keeps P (broker_call e answer)"
  by (simp add: keeps_def broker_call_def)

lemma keeps_pbind: "keeps P m \<Longrightarrow> (\<And>x. keeps P (f x)) \<Longrightarrow> keeps P (pbind m f)"
  unfolding keeps_def pbind_def
proof
  fix tr
  assume m: "\<forall>tr. filter P (snd (m tr)) = filter P tr"
    and f: "\<And>x. \<forall>tr. filter P (snd (f x tr)) = filter P tr"
  obtain r tr' where mt: "m tr = (r, tr')" by (cases "m tr")
  have k: "filter P tr' = filter P tr" using m mt by (metis snd_conv)
  show "filter P (snd (case m tr of (Inl e, tr') \<Rightarrow> (Inl e, tr') | (Inr x, tr') \<Rightarrow> f x tr'))
        = filter P tr"
    using mt k f by (cases r) simp_all
qed

lemma keeps_log_print: "\<not> P (Log l m) \<Longrightarrow> \<not> P (Print m) \<Longrightarrow> keeps P (log_print l m)"
  unfolding log_print_def by (intro keeps_pbind keeps_emit)

lemma keeps_for_each: "(\<And>x. keeps P (f x)) \<Longrightarrow> keeps P (for_each f xs)"
  by (induction xs) (simp_all add: keeps_return keeps_pbind)

lemma keepsD: "keeps P m \<Longrightarrow> filter P (snd (m tr)) = filter P tr"
  by (simp add: keeps_def)

section \<open>Simulation mode\<close>

lemma connect_ib_dummy: "mode C = ''DUMMY'' \<Longrightarrow> keeps is_broker_op (connect_ib W C)"
  by (simp add: connect_ib_def keeps_emit)

lemma get_bars_dummy: "mode C = ''DUMMY'' \<Longrightarrow> keeps is_broker_op (get_bars W C symb)"
  by (simp add: get_bars_def keeps_pbind keeps_emit keeps_ask)

lemma place_orders_dummy: "mode C = ''DUMMY'' \<Longrightarrow> keeps is_broker_op (place_orders W C c q)"
  by (simp add: place_orders_def keeps_emit keeps_log_print)

lemma eod_cleanup_dummy: "mode C = ''DUMMY'' \<Longrightarrow> keeps is_broker_op (eod_cleanup W C)"
  unfolding eod_cleanup_def
  by (intro keeps_pbind keeps_emit keeps_ask) (simp_all add: Let_def keeps_return keeps_log_print)

lemma process_symbol_dummy:
  "mode C = ''DUMMY'' \<Longrightarrow> keeps is_broker_op (process_symbol W C symb)"
  unfolding process_symbol_def
  by (intro keeps_pbind get_bars_dummy)
     (auto simp: Let_def keeps_raise keeps_log_print place_orders_dummy
       intro!: keeps_pbind keeps_ask split: sum.splits option.splits)

lemma symbols_loop_dummy:
  "mode C = ''DUMMY'' \<Longrightarrow> filter is_broker_op (snd (symbols_loop W C syms tr)) = filter is_broker_op tr"
proof (induction syms arbitrary: tr)
  case Nil
  then show ?case by simp
next
  case (Cons s syms)
  obtain r tr' where p: "process_symbol W C s tr = (r, tr')" by (cases "process_symbol W C s tr")
  have k: "filter is_broker_op tr' = filter is_broker_op tr"
    using keepsD[OF process_symbol_dummy[OF Cons.prems], of W s tr] p by simp
  show ?case using p k Cons.IH[OF Cons.prems] by (cases r) simp_all
qed

lemma symbols_loop_returns: "fst (symbols_loop W C syms tr) = Inr ()"
proof (induction syms arbitrary: tr)
  case Nil
  then show ?case by simp
next
  case (Cons s syms)
  obtain r tr' where p: "process_symbol W C s tr = (r, tr')" by (cases "process_symbol W C s tr")
  show ?case using p Cons.IH by (cases r) simp_all
qed

lemma keeps_symbols_loop_dummy: "mode C = ''DUMMY'' \<Longrightarrow> keeps is_broker_op (symbols_loop W C syms)"
  by (simp add: keeps_def symbols_loop_dummy)

lemma run_strategy_dummy_keeps: "mode C = ''DUMMY'' \<Longrightarrow> keeps is_broker_op (run_strategy W C)"
  unfolding run_strategy_def
  by (intro keeps_pbind keeps_log_print connect_ib_dummy keeps_symbols_loop_dummy eod_cleanup_dummy)
     simp_all

lemma fst_emit: "fst (emit e tr) = Inr ()"
  by (simp add: emit_def)

lemma fst_log_print: "fst (log_print l m tr) = Inr ()"
  by (simp add: log_print_def pbind_def emit_def)

lemma fst_pbind_Inr:
  "(\<And>tr. fst (m tr) = Inr ()) \<Longrightarrow> (\<And>tr. fst (f () tr) = Inr ()) \<Longrightarrow> fst (pbind m f tr) = Inr ()"
proof -
  assume m: "\<And>tr. fst (m tr) = Inr ()" and f: "\<And>tr. fst (f () tr) = Inr ()"
  obtain r tr' where mt: "m tr = (r, tr')" by (cases "m tr")
  with m[of tr] have "r = Inr ()" by simp
  with mt f show ?thesis by (simp add: pbind_def)
qed

lemma connect_ib_dummy_returns: "mode C = ''DUMMY'' \<Longrightarrow> fst (connect_ib W C tr) = Inr ()"
  by (simp add: connect_ib_def emit_def)

lemma eod_cleanup_dummy_returns: "mode C = ''DUMMY'' \<Longrightarrow> fst (eod_cleanup W C tr) = Inr ()"
  by (simp add: eod_cleanup_def pbind_def emit_def ask_def Let_def return_def log_print_def)

lemma run_strategy_dummy_returns: "mode C = ''DUMMY'' \<Longrightarrow> fst (run_strategy W C tr) = Inr ()"
  unfolding run_strategy_def
  by (intro fst_pbind_Inr fst_log_print connect_ib_dummy_returns symbols_loop_returns
      eod_cleanup_dummy_returns)

lemma dummy_flat: "dummy_bars t (\<lambda>_. 0) =
   map (\<lambda>i. \<lparr>index = t - hours 6 + minutes 5 * int i, open' = 400, high = 401, low = 399, close = 400\<rparr>) [0..<72]"
  by (simp add: dummy_bars_def)

lemma find_trigger_flat:
  "find_trigger C (dummy_bars t (\<lambda>_. 0)) = Inr None"
proof -
  let ?df = "dummy_bars t (\<lambda>_. 0)"
  have ne: "?df \<noteq> []" by (simp add: dummy_bars_def)
  have inj: "inj_on (\<lambda>i. t - hours 6 + minutes 5 * int i) (set [0..<72])"
    by (rule inj_onI) (simp add: minutes_def)
  have d: "distinct (map index ?df)"
    unfolding dummy_flat by (simp add: comp_def distinct_map inj del: upt_Suc set_upt upt.simps)
  have flat: "\<And>q r. q \<in> set ?df \<Longrightarrow> r \<in> set ?df \<Longrightarrow> \<not> spec_breakout q r"
    unfolding dummy_flat by (auto simp: spec_breakout_def spec_up_def)
  have sub: "set (spec_remaining C ?df) \<subseteq> set ?df"
    by (auto simp: spec_remaining_def)
  have "spec_trigger (spec_remaining C ?df) = None"
    unfolding spec_trigger_None
  proof (intro allI impI)
    fix i assume i: "Suc i < length (spec_remaining C ?df)"
    then have "spec_remaining C ?df ! i \<in> set ?df" "spec_remaining C ?df ! Suc i \<in> set ?df"
      using sub by (auto simp: subset_iff)
    then show "\<not> spec_breakout (spec_remaining C ?df ! i) (spec_remaining C ?df ! Suc i)"
      by (rule flat)
  qed
  moreover have "find_trigger C ?df = Inr (spec_trigger (spec_remaining C ?df))"
    using ne d by (rule find_trigger_spec)
  ultimately show ?thesis by simp
qed

lemma run_dummy:
  "run_strategy (calm_world [] 0 0) default_config [] =
     (Inr (),
      [Log INFO Started, Print Started, Log INFO Dummy_mode, Call (Get_bars ''SPY''),
       Log INFO (No_trigger ''SPY''), Print (No_trigger ''SPY''), Call Eod_cleanup,
       Log INFO Completed, Print Completed])"
proof -
  have m: "mode default_config = ''DUMMY''" "symbols default_config = [''SPY'']"
    "eod_time default_config = 950"
    by (simp_all add: default_config_def)
  have w: "now (calm_world [] 0 0) = (\<lambda>_. 0)" "randn (calm_world [] 0 0) = (\<lambda>_ _. 0)"
    by (simp_all add: calm_world_def)
  show ?thesis
    by (simp add: run_strategy_def pbind_def log_print_def emit_def connect_ib_def m w
      process_symbol_def get_bars_def eod_cleanup_def ask_def Let_def return_def day_def
      minutes_def find_trigger_flat)
qed

text \<open>
  Claim C8. Whenever the mode is \<^verbatim>\<open>DUMMY\<close>, a run performs no operation on the broker
  session: no connect, no history request, no order, no sleep, no listing or cancelling
  of orders, no listing of positions, no disconnect. The run returns normally, its
  events being log records, console lines and procedure entries, and every bar series
  is the synthetic one.
\<close>

theorem dummy_mode_no_broker_operation:
  assumes "mode C = ''DUMMY''"
  shows "filter is_broker_op (snd (run_strategy W C [])) = [] \<and>
         fst (run_strategy W C []) = Inr () \<and>
         get_bars W C symb tr =
           (Inr (dummy_bars (now W (tr @ [Call (Get_bars symb)]))
                   (randn W (tr @ [Call (Get_bars symb)]))),
            tr @ [Call (Get_bars symb)])"
proof (intro conjI)
  show "filter is_broker_op (snd (run_strategy W C [])) = []"
    using keepsD[OF run_strategy_dummy_keeps[OF assms], of W "[]"] by simp
  show "fst (run_strategy W C []) = Inr ()" using assms by (rule run_strategy_dummy_returns)
  show "get_bars W C symb tr =
           (Inr (dummy_bars (now W (tr @ [Call (Get_bars symb)]))
                   (randn W (tr @ [Call (Get_bars symb)]))),
            tr @ [Call (Get_bars symb)])"
    using assms by (simp add: get_bars_def pbind_def emit_def ask_def)
qed

theorem dummy_mode_no_broker_operation_witness:
  "mode default_config = ''DUMMY'' \<and>
   filter is_broker_op (snd (run_strategy (calm_world [] 0 0) default_config [])) = [] \<and>
   run_strategy (calm_world [] 0 0) default_config [] =
     (Inr (),
      [Log INFO Started, Print Started, Log INFO Dummy_mode, Call (Get_bars ''SPY''),
       Log INFO (No_trigger ''SPY''), Print (No_trigger ''SPY''), Call Eod_cleanup,
       Log INFO Completed, Print Completed])"
proof -
  have m: "mode default_config = ''DUMMY''" by (simp add: default_config_def)
  from dummy_mode_no_broker_operation[OF m, of "calm_world [] 0 0"] m show ?thesis
    by (simp add: run_dummy)
qed

section \<open>The orchestrator\<close>

lemma pbind_assoc: "pbind (pbind m f) g = pbind m (\<lambda>x. pbind (f x) g)"
  by (rule ext) (simp add: pbind_def split: prod.splits sum.splits)

lemma filter_after_emit:
  "keeps P g \<Longrightarrow> filter P (snd (pbind (emit e) (\<lambda>_. g) tr)) = filter P (tr @ [e])"
  by (simp add: pbind_def emit_def keeps_def)

lemma connect_ib_calls: "keeps is_call (connect_ib W C)"
  by (simp add: connect_ib_def keeps_emit keeps_pbind keeps_broker_call)

lemma place_orders_calls: "keeps is_call (place_orders W C c q)"
  unfolding place_orders_def
  by (auto simp: Let_def keeps_emit keeps_log_print keeps_return
      intro!: keeps_pbind keeps_broker_call keeps_ask keeps_emit keeps_for_each)

lemma flatten_position_calls: "keeps is_call (flatten_position W pos)"
  by (simp add: flatten_position_def Let_def keeps_return keeps_broker_call)

lemma eod_cleanup_calls:
  "filter is_call (snd (eod_cleanup W C tr)) = filter is_call tr @ [Call Eod_cleanup]"
proof -
  have "filter is_call (snd (eod_cleanup W C tr)) = filter is_call (tr @ [Call Eod_cleanup])"
    unfolding eod_cleanup_def
    by (rule filter_after_emit)
       (auto simp: Let_def keeps_return keeps_log_print flatten_position_calls
         intro!: keeps_pbind keeps_ask keeps_broker_call keeps_for_each keeps_emit)
  then show ?thesis by simp
qed

lemma process_symbol_calls:
  "filter is_call (snd (process_symbol W C symb tr)) = filter is_call tr @ [Call (Get_bars symb)]"
proof -
  have "filter is_call (snd (process_symbol W C symb tr))
        = filter is_call (tr @ [Call (Get_bars symb)])"
    unfolding process_symbol_def get_bars_def pbind_assoc
    by (rule filter_after_emit)
       (auto simp: Let_def keeps_raise keeps_log_print place_orders_calls
         intro!: keeps_pbind keeps_ask keeps_broker_call split: sum.splits option.splits)
  then show ?thesis by simp
qed

lemma symbols_loop_calls:
  "filter is_call (snd (symbols_loop W C syms tr))
   = filter is_call tr @ map (\<lambda>s. Call (Get_bars s)) syms"
proof (induction syms arbitrary: tr)
  case Nil
  then show ?case by simp
next
  case (Cons s syms)
  obtain r tr' where p: "process_symbol W C s tr = (r, tr')" by (cases "process_symbol W C s tr")
  have k: "filter is_call tr' = filter is_call tr @ [Call (Get_bars s)]"
    using process_symbol_calls[of W C s tr] p by simp
  show ?case using p k Cons.IH by (cases r) simp_all
qed

lemma symbols_loop_append:
  "symbols_loop W C (xs @ ys) tr = symbols_loop W C ys (snd (symbols_loop W C xs tr))"
proof (induction xs arbitrary: tr)
  case Nil
  then show ?case by simp
next
  case (Cons s xs)
  obtain r tr' where p: "process_symbol W C s tr = (r, tr')" by (cases "process_symbol W C s tr")
  show ?case using p Cons.IH by (cases r) simp_all
qed

lemma symbols_loop_caught:
  assumes "process_symbol W C symb (snd (symbols_loop W C before tr)) = (Inl e, tr')"
  shows "symbols_loop W C (before @ symb # rest) tr =
         symbols_loop W C rest
           (tr' @ [Log ERROR (Error_processing symb e), Print (Error_processing symb e)])"
  using assms by (simp add: symbols_loop_append)

lemma run_strategy_trace:
  assumes "connect_ib W C [Log INFO Started, Print Started] = (Inr (), tr1)"
  shows "snd (run_strategy W C []) =
          (case eod_cleanup W C (snd (symbols_loop W C (symbols C) tr1)) of
             (Inl e, tr3) \<Rightarrow> tr3
           | (Inr u, tr3) \<Rightarrow> tr3 @ [Log INFO Completed, Print Completed])"
proof -
  obtain tr2 where l: "symbols_loop W C (symbols C) tr1 = (Inr (), tr2)"
    using symbols_loop_returns[of W C "symbols C" tr1]
    by (cases "symbols_loop W C (symbols C) tr1") auto
  show ?thesis
    using assms l
    by (simp add: run_strategy_def pbind_def log_print_def emit_def split: prod.splits sum.splits)
qed

lemma run_failing:
  "run_strategy failing_world two_symbols [] =
    (Inr (),
      [Log INFO Started, Print Started, IB_connect ''127.0.0.1'' 7497 1,
       Log INFO Connected, Call (Get_bars ''SPY''),
       IB_reqHistoricalData ''SPY'',
       Log ERROR (Error_processing ''SPY'' (BrokerError 1)),
       Print (Error_processing ''SPY'' (BrokerError 1)),
       Call (Get_bars ''QQQ''), IB_reqHistoricalData ''QQQ'',
       Log ERROR (Error_processing ''QQQ'' (BrokerError 1)),
       Print (Error_processing ''QQQ'' (BrokerError 1)),
       Call Eod_cleanup, Log INFO Completed, Print Completed])"
  by (simp add: run_strategy_def pbind_def log_print_def emit_def connect_ib_def broker_call_def
      failing_world_def calm_world_def two_symbols_def live_config_def default_config_def
      process_symbol_def get_bars_def eod_cleanup_def ask_def Let_def return_def day_def
      minutes_def raise_def)

text \<open>
  Claim C2. In every run in which \<^verbatim>\<open>connect_ib\<close> returns, the loop over the symbols
  never raises; an exception raised while one symbol is processed is caught, logged and
  printed, and the loop goes on with the remaining symbols; and the procedure entries of
  the run are \<^verbatim>\<open>get_bars\<close> once for each configured symbol, in order, followed by
  \<^verbatim>\<open>eod_cleanup\<close> exactly once, whatever the symbols raised or triggered.
\<close>

theorem per_symbol_isolation_then_eod:
  assumes "connect_ib W C [Log INFO Started, Print Started] = (Inr (), tr1)"
  shows "fst (symbols_loop W C (symbols C) tr1) = Inr () \<and>
         (\<forall>before symb rest e tr'.
            symbols C = before @ symb # rest \<and>
            process_symbol W C symb (snd (symbols_loop W C before tr1)) = (Inl e, tr') \<longrightarrow>
            symbols_loop W C (symbols C) tr1 =
              symbols_loop W C rest
                (tr' @ [Log ERROR (Error_processing symb e), Print (Error_processing symb e)])) \<and>
         filter is_call (snd (run_strategy W C [])) =
           map (\<lambda>s. Call (Get_bars s)) (symbols C) @ [Call Eod_cleanup]"
proof (intro conjI allI impI)
  show "fst (symbols_loop W C (symbols C) tr1) = Inr ()" by (rule symbols_loop_returns)
next
  fix before symb rest e tr'
  assume "symbols C = before @ symb # rest \<and>
          process_symbol W C symb (snd (symbols_loop W C before tr1)) = (Inl e, tr')"
  then show "symbols_loop W C (symbols C) tr1 =
              symbols_loop W C rest
                (tr' @ [Log ERROR (Error_processing symb e), Print (Error_processing symb e)])"
    using symbols_loop_caught[of W C symb before tr1 e tr' rest] by simp
next
  have c1: "filter is_call tr1 = []"
    using keepsD[OF connect_ib_calls, of W C "[Log INFO Started, Print Started]"] assms by simp
  let ?tr2 = "snd (symbols_loop W C (symbols C) tr1)"
  have c2: "filter is_call ?tr2 = map (\<lambda>s. Call (Get_bars s)) (symbols C)"
    using symbols_loop_calls[of W C "symbols C" tr1] c1 by simp
  obtain r tr3 where e: "eod_cleanup W C ?tr2 = (r, tr3)" by (cases "eod_cleanup W C ?tr2")
  have c3: "filter is_call tr3 = map (\<lambda>s. Call (Get_bars s)) (symbols C) @ [Call Eod_cleanup]"
    using eod_cleanup_calls[of W C ?tr2] e c2 by simp
  show "filter is_call (snd (run_strategy W C [])) =
           map (\<lambda>s. Call (Get_bars s)) (symbols C) @ [Call Eod_cleanup]"
    unfolding run_strategy_trace[OF assms] using e c3 by (cases r) simp_all
qed

theorem per_symbol_isolation_then_eod_witness:
  "connect_ib failing_world two_symbols [Log INFO Started, Print Started] =
     (Inr (), [Log INFO Started, Print Started, IB_connect ''127.0.0.1'' 7497 1,
               Log INFO Connected]) \<and>
   filter is_call (snd (run_strategy failing_world two_symbols [])) =
     [Call (Get_bars ''SPY''), Call (Get_bars ''QQQ''), Call Eod_cleanup] \<and>
   filter (\<lambda>e. e = Log ERROR (Error_processing ''SPY'' (BrokerError 1)) \<or>
               e = Log ERROR (Error_processing ''QQQ'' (BrokerError 1)))
     (snd (run_strategy failing_world two_symbols [])) =
     [Log ERROR (Error_processing ''SPY'' (BrokerError 1)),
      Log ERROR (Error_processing ''QQQ'' (BrokerError 1))]"
proof -
  have c: "connect_ib failing_world two_symbols [Log INFO Started, Print Started] =
     (Inr (), [Log INFO Started, Print Started, IB_connect ''127.0.0.1'' 7497 1,
               Log INFO Connected])"
    by (simp add: connect_ib_def pbind_def broker_call_def emit_def failing_world_def
        calm_world_def two_symbols_def live_config_def default_config_def)
  have s: "symbols two_symbols = [''SPY'', ''QQQ'']"
    by (simp add: two_symbols_def)
  from per_symbol_isolation_then_eod[OF c] s
  have "filter is_call (snd (run_strategy failing_world two_symbols [])) =
     [Call (Get_bars ''SPY''), Call (Get_bars ''QQQ''), Call Eod_cleanup]" by simp
  with c show ?thesis by (simp add: run_failing)
qed

section \<open>The reference price\<close>





end
